theory Spec2Isabelle
  imports Main
begin

section \<open>Python strings\<close>

text \<open>
  A Python \<open>str\<close> is a sequence of Unicode code points, and \<open>len\<close>, slicing,
  \<open>split\<close> and \<open>strip\<close> all count code points. A string is therefore a list of
  code points, each a natural number; \<open>py\<close> turns an ASCII literal into one.
\<close>

type_synonym pystr = "nat list"

definition py :: "string \<Rightarrow> pystr" where
  "py s = map of_char s"

text \<open>
  The code points for which \<open>str.isspace\<close> holds; \<open>str.strip()\<close> and
  \<open>str.split()\<close> without arguments use exactly this set.
\<close>

definition isspace :: "nat \<Rightarrow> bool" where
  "isspace c \<longleftrightarrow>
     (9 \<le> c \<and> c \<le> 13) \<or> (28 \<le> c \<and> c \<le> 32) \<or> c = 133 \<or> c = 160 \<or> c = 5760 \<or>
     (8192 \<le> c \<and> c \<le> 8202) \<or> c = 8232 \<or> c = 8233 \<or> c = 8239 \<or> c = 8287 \<or> c = 12288"

text \<open>\<open>s.strip()\<close>: whitespace removed at both ends.\<close>

definition strip :: "pystr \<Rightarrow> pystr" where
  "strip s = rev (dropWhile isspace (rev (dropWhile isspace s)))"

text \<open>\<open>sep.join(xs)\<close>.\<close>

fun join_str :: "pystr \<Rightarrow> pystr list \<Rightarrow> pystr" where
  "join_str sep [] = []"
| "join_str sep [x] = x"
| "join_str sep (x # y # ys) = x @ sep @ join_str sep (y # ys)"

text \<open>
  \<open>s.split()\<close> without arguments: the scan keeps the word being read in \<open>cur\<close>;
  a whitespace code point closes a non-empty word and is dropped otherwise.
\<close>

fun split_scan :: "pystr \<Rightarrow> pystr \<Rightarrow> pystr list" where
  "split_scan cur [] = (if cur = [] then [] else [cur])"
| "split_scan cur (c # cs) =
     (if isspace c then (if cur = [] then split_scan [] cs else cur # split_scan [] cs)
      else split_scan (cur @ [c]) cs)"

definition split_ws :: "pystr \<Rightarrow> pystr list" where
  "split_ws s = split_scan [] s"

text \<open>
  \<open>s.split(sep)\<close> for a separator of one code point: the result is never empty, and
  a string without the separator comes back whole as the only element.
\<close>

fun split_sep :: "nat \<Rightarrow> pystr \<Rightarrow> pystr list" where
  "split_sep d [] = [[]]"
| "split_sep d (c # cs) =
     (if c = d then [] # split_sep d cs
      else (case split_sep d cs of [] \<Rightarrow> [[c]] | x # xs \<Rightarrow> (c # x) # xs))"

section \<open>Exceptions, the record and the external capabilities\<close>

text \<open>
  Nothing in the source catches an exception. \<open>IndexError\<close> is what \<open>xs[0]\<close> raises
  on an empty list, \<open>ValueError\<close> what \<open>range\<close> raises on a zero step,
  \<open>UnicodeDecodeError\<close> what reading a text file raises on bytes that are not UTF-8,
  and \<open>LibraryError\<close> stands for whatever else a library call (PyMuPDF, python-docx,
  pdf2image, pytesseract, opening a file, the summarization pipeline, KeyBERT) raises,
  with its message.
\<close>

datatype exn = IndexError | ValueError | UnicodeDecodeError | LibraryError string

text \<open>The dictionary built by \<open>generate_metadata\<close>, with its five keys in order.\<close>

record metadata =
  title :: pystr
  summary :: pystr
  "keywords" :: "pystr list"
  document_type :: pystr
  word_count :: int

text \<open>
  What a run does to the outside world, in order: the library calls it makes and the
  blocks it prints. \<open>Json m\<close> is \<open>json.dumps(m, indent=4)\<close> and \<open>Yaml m\<close> is
  \<open>yaml.dump(m, sort_keys=False)\<close>.
\<close>

datatype printed = Text pystr | Json metadata | Yaml metadata

datatype event =
    PathExists pystr
  | FitzOpen pystr
  | DocxOpen pystr
  | OcrConvert pystr
  | ReadText pystr
  | Summarize pystr
  | ExtractKeywords pystr
  | Print printed

text \<open>
  The libraries are parameters of the model. Each field is the outcome of one library
  call of the source, \<open>Inl\<close> when it raises:
  \<^item> \<open>suffix_lower p\<close> is \<open>Path(p).suffix.lower()\<close>;
  \<^item> \<open>path_exists p\<close> is \<open>os.path.exists(p)\<close>;
  \<^item> \<open>fitz_pages p\<close> is \<open>page.get_text()\<close> for every page of \<open>fitz.open(p)\<close>;
  \<^item> \<open>docx_paragraphs p\<close> is the text of every paragraph of \<open>docx.Document(p)\<close>;
  \<^item> \<open>ocr_pages p\<close> is \<open>pytesseract.image_to_string\<close> of every image of
    \<open>convert_from_path(p)\<close>;
  \<^item> \<open>file_bytes p\<close> is the content of the file \<open>p\<close>, the bytes that
    \<open>Path(p).read_text\<close> reads before it decodes them, each a number below 256;
  \<^item> \<open>summarizer t\<close> is
    \<open>summarizer(t, max_length=130, min_length=30, do_sample=False)[0]['summary_text']\<close>;
  \<^item> \<open>extract_keywords t\<close> is \<open>kw_model.extract_keywords(t, keyphrase_ngram_range=(1, 2),
    stop_words='english', top_n=8)\<close>, a list of pairs of a phrase and its score.
\<close>

record 'sc env =
  suffix_lower :: "pystr \<Rightarrow> pystr"
  path_exists :: "pystr \<Rightarrow> bool"
  fitz_pages :: "pystr \<Rightarrow> exn + pystr list"
  docx_paragraphs :: "pystr \<Rightarrow> exn + pystr list"
  ocr_pages :: "pystr \<Rightarrow> exn + pystr list"
  file_bytes :: "pystr \<Rightarrow> exn + nat list"
  summarizer :: "pystr \<Rightarrow> exn + pystr"
  extract_keywords :: "pystr \<Rightarrow> exn + (pystr \<times> 'sc) list"

section \<open>Reading a text file\<close>

text \<open>
  \<open>Path(p).read_text(encoding="utf-8")\<close> opens the file in text mode with the default
  newline handling, reads all of it, decodes the bytes as UTF-8 with strict error
  handling and then translates the line ends.

  The decoder accepts the well-formed sequences only: one byte below 128; a lead byte
  \<open>C2\<close> to \<open>DF\<close> and one continuation byte; a lead byte \<open>E0\<close> to \<open>EF\<close> and two; a
  lead byte \<open>F0\<close> to \<open>F4\<close> and three. The second byte is narrowed after \<open>E0\<close> and
  \<open>F0\<close> (no overlong form), after \<open>ED\<close> (no surrogate) and after \<open>F4\<close> (nothing
  beyond \<open>10FFFF\<close>). A byte order mark is a code point like any other. Anything
  else raises.
\<close>

definition continuation :: "nat \<Rightarrow> bool" where
  "continuation b \<longleftrightarrow> 128 \<le> b \<and> b \<le> 191"

definition cons_decoded :: "nat \<Rightarrow> exn + pystr \<Rightarrow> exn + pystr" where
  "cons_decoded c r = (case r of Inl e \<Rightarrow> Inl e | Inr s \<Rightarrow> Inr (c # s))"

fun utf8_decode :: "nat list \<Rightarrow> exn + pystr" where
  "utf8_decode [] = Inr []"
| "utf8_decode (b0 # bs) =
     (if b0 < 128 then cons_decoded b0 (utf8_decode bs)
      else if 194 \<le> b0 \<and> b0 \<le> 223 then
        (case bs of
           b1 # r1 \<Rightarrow>
             if continuation b1
             then cons_decoded ((b0 - 192) * 64 + (b1 - 128)) (utf8_decode r1)
             else Inl UnicodeDecodeError
         | _ \<Rightarrow> Inl UnicodeDecodeError)
      else if 224 \<le> b0 \<and> b0 \<le> 239 then
        (case bs of
           b1 # b2 # r2 \<Rightarrow>
             if (if b0 = 224 then 160 else 128) \<le> b1 \<and>
                b1 \<le> (if b0 = 237 then 159 else 191) \<and> continuation b2
             then cons_decoded ((b0 - 224) * 4096 + (b1 - 128) * 64 + (b2 - 128))
                    (utf8_decode r2)
             else Inl UnicodeDecodeError
         | _ \<Rightarrow> Inl UnicodeDecodeError)
      else if 240 \<le> b0 \<and> b0 \<le> 244 then
        (case bs of
           b1 # b2 # b3 # r3 \<Rightarrow>
             if (if b0 = 240 then 144 else 128) \<le> b1 \<and>
                b1 \<le> (if b0 = 244 then 143 else 191) \<and> continuation b2 \<and> continuation b3
             then cons_decoded
                    ((b0 - 240) * 262144 + (b1 - 128) * 4096 + (b2 - 128) * 64 + (b3 - 128))
                    (utf8_decode r3)
             else Inl UnicodeDecodeError
         | _ \<Rightarrow> Inl UnicodeDecodeError)
      else Inl UnicodeDecodeError)"

text \<open>
  Text mode without a \<open>newline\<close> argument reads with universal newlines: a carriage
  return followed by a line feed, and a carriage return alone, each become one line
  feed (code points 13 and 10). No other code point is touched.
\<close>

fun universal_newlines :: "pystr \<Rightarrow> pystr" where
  "universal_newlines [] = []"
| "universal_newlines (c # cs) =
     (if c = 13 then
        (case cs of
           [] \<Rightarrow> [10]
         | d # ds \<Rightarrow> if d = 10 then 10 # universal_newlines ds else 10 # universal_newlines cs)
      else c # universal_newlines cs)"

definition read_text :: "'sc env \<Rightarrow> pystr \<Rightarrow> exn + pystr" where
  "read_text env path =
     (case file_bytes env path of
        Inl e \<Rightarrow> Inl e
      | Inr bs \<Rightarrow>
          (case utf8_decode bs of
             Inl e \<Rightarrow> Inl e
           | Inr s \<Rightarrow> Inr (universal_newlines s)))"

section \<open>Document extraction functions\<close>

text \<open>Every function returns the events of its run and then its value or its exception.\<close>

definition extract_text_from_pdf :: "'sc env \<Rightarrow> pystr \<Rightarrow> event list \<times> (exn + pystr)" where
  "extract_text_from_pdf env path =
     ([FitzOpen path],
      case fitz_pages env path of
        Inl e \<Rightarrow> Inl e
      | Inr pages \<Rightarrow> Inr (strip (join_str [10] pages)))"

definition extract_text_from_docx :: "'sc env \<Rightarrow> pystr \<Rightarrow> event list \<times> (exn + pystr)" where
  "extract_text_from_docx env path =
     ([DocxOpen path],
      case docx_paragraphs env path of
        Inl e \<Rightarrow> Inl e
      | Inr paras \<Rightarrow> Inr (strip (join_str [10] paras)))"

definition extract_text_via_ocr :: "'sc env \<Rightarrow> pystr \<Rightarrow> event list \<times> (exn + pystr)" where
  "extract_text_via_ocr env path =
     ([OcrConvert path],
      case ocr_pages env path of
        Inl e \<Rightarrow> Inl e
      | Inr images \<Rightarrow> Inr (strip (join_str [10] images)))"

text \<open>
  The dispatch on the lower-cased suffix: the body of \<open>process_file\<close>, and the same
  four branches at the top level of both UI scripts.
\<close>

definition dispatch :: "'sc env \<Rightarrow> pystr \<Rightarrow> pystr \<Rightarrow> event list \<times> (exn + pystr \<times> pystr)" where
  "dispatch env ext file_path =
     (if ext = py ''.pdf'' then
        (case extract_text_from_pdf env file_path of
           (l1, Inl e) \<Rightarrow> (l1, Inl e)
         | (l1, Inr text) \<Rightarrow>
             if text = [] then
               (case extract_text_via_ocr env file_path of
                  (l2, Inl e) \<Rightarrow> (l1 @ l2, Inl e)
                | (l2, Inr text2) \<Rightarrow> (l1 @ l2, Inr (text2, py ''Scanned PDF'')))
             else (l1, Inr (text, py ''PDF'')))
      else if ext = py ''.docx'' then
        (case extract_text_from_docx env file_path of
           (l1, Inl e) \<Rightarrow> (l1, Inl e)
         | (l1, Inr text) \<Rightarrow> (l1, Inr (text, py ''DOCX'')))
      else if ext = py ''.txt'' then
        (case read_text env file_path of
           Inl e \<Rightarrow> ([ReadText file_path], Inl e)
         | Inr text \<Rightarrow> ([ReadText file_path], Inr (text, py ''TXT'')))
      else ([], Inr ([], py ''Unknown'')))"

definition process_file :: "'sc env \<Rightarrow> pystr \<Rightarrow> event list \<times> (exn + pystr \<times> pystr)" where
  "process_file env file_path = dispatch env (suffix_lower env file_path) file_path"

section \<open>Metadata generation\<close>

text \<open>\<open>xs[0]\<close>, which raises on an empty list.\<close>

definition index0 :: "'a list \<Rightarrow> exn + 'a" where
  "index0 xs = (case xs of [] \<Rightarrow> Inl IndexError | x # _ \<Rightarrow> Inr x)"

text \<open>
  The dictionary literal shared by every variant of \<open>generate_metadata\<close>, its values
  evaluated in the order written: \<open>summary.split('.')[0]\<close>, the summary, the first
  component of every keyword pair, the document type and \<open>len(text.split())\<close>.
\<close>

definition build_metadata ::
  "pystr \<Rightarrow> (pystr \<times> 'sc) list \<Rightarrow> pystr \<Rightarrow> pystr \<Rightarrow> exn + metadata" where
  "build_metadata summ kws doc_type text =
     (case index0 (split_sep 46 summ) of
        Inl e \<Rightarrow> Inl e
      | Inr t \<Rightarrow>
          Inr \<lparr>title = t, summary = summ, keywords = map fst kws,
               document_type = doc_type, word_count = int (length (split_ws text))\<rparr>)"

text \<open>
  \<open>generate_metadata\<close> of the notebook and of \<open>streamlit_app.py\<close>: the text is cut to
  its first 1024 code points for the summarizer, and the keyword model reads all of it.
\<close>

definition generate_metadata ::
  "'sc env \<Rightarrow> pystr \<Rightarrow> pystr \<Rightarrow> event list \<times> (exn + metadata)" where
  "generate_metadata env text doc_type =
     (let short_text = (if length text > 1024 then take 1024 text else text) in
      case summarizer env short_text of
        Inl e \<Rightarrow> ([Summarize short_text], Inl e)
      | Inr summ \<Rightarrow>
          (case extract_keywords env text of
             Inl e \<Rightarrow> ([Summarize short_text, ExtractKeywords text], Inl e)
           | Inr kws \<Rightarrow>
               ([Summarize short_text, ExtractKeywords text],
                build_metadata summ kws doc_type text)))"

text \<open>
  \<open>[text[i:i+chunk_size] for i in range(0, len(text), chunk_size)]\<close>: the range has
  one offset for every started block of \<open>chunk_size\<close> code points.
\<close>

definition chunks_of :: "nat \<Rightarrow> pystr \<Rightarrow> pystr list" where
  "chunks_of chunk_size text =
     map (\<lambda>k. take chunk_size (drop (k * chunk_size) text))
       [0 ..< (length text + chunk_size - 1) div chunk_size]"

text \<open>The loop over the chunks: one summarizer call each, the summaries appended in order.\<close>

fun summarize_chunks ::
  "'sc env \<Rightarrow> pystr list \<Rightarrow> pystr list \<Rightarrow> event list \<times> (exn + pystr list)" where
  "summarize_chunks env [] summaries = ([], Inr summaries)"
| "summarize_chunks env (chunk # rest) summaries =
     (case summarizer env chunk of
        Inl e \<Rightarrow> ([Summarize chunk], Inl e)
      | Inr s \<Rightarrow>
          (case summarize_chunks env rest (summaries @ [s]) of
             (l, r) \<Rightarrow> (Summarize chunk # l, r)))"

text \<open>
  \<open>summarize_long_text\<close>. The sizes are natural numbers: the only call of the source
  passes neither, so they are 1000 and 5. A step of zero makes \<open>range\<close> raise.
\<close>

definition summarize_long_text ::
  "'sc env \<Rightarrow> pystr \<Rightarrow> nat \<Rightarrow> nat \<Rightarrow> event list \<times> (exn + pystr)" where
  "summarize_long_text env text chunk_size max_chunks =
     (if chunk_size = 0 then ([], Inl ValueError)
      else
        (case summarize_chunks env (take max_chunks (chunks_of chunk_size text)) [] of
           (l, Inl e) \<Rightarrow> (l, Inl e)
         | (l, Inr summaries) \<Rightarrow> (l, Inr (join_str [32] summaries))))"

text \<open>\<open>generate_metadata\<close> of the enhanced UI script, which summarizes by chunks.\<close>

definition generate_metadata_ui ::
  "'sc env \<Rightarrow> pystr \<Rightarrow> pystr \<Rightarrow> event list \<times> (exn + metadata)" where
  "generate_metadata_ui env text doc_type =
     (case summarize_long_text env text 1000 5 of
        (l, Inl e) \<Rightarrow> (l, Inl e)
      | (l, Inr summ) \<Rightarrow>
          (case extract_keywords env text of
             Inl e \<Rightarrow> (l @ [ExtractKeywords text], Inl e)
           | Inr kws \<Rightarrow>
               (l @ [ExtractKeywords text], build_metadata summ kws doc_type text)))"

section \<open>The notebook's entry point\<close>

definition msg_json :: pystr where
  "msg_json = [10, 128209, 32] @ py ''JSON Metadata Output:'' @ [10]"

definition msg_yaml :: pystr where
  "msg_yaml = [10, 128203, 32] @ py ''YAML Metadata Output:'' @ [10]"

definition msg_no_text :: pystr where
  "msg_no_text = [10060, 32] @ py ''No text found in the document.''"

definition msg_not_found :: pystr where
  "msg_not_found =
     [9888, 65039, 32] @ py ''File not found. Please update the '' @ [39] @
     py ''file_path'' @ [39] @ py '' variable.''"

text \<open>
  The statements after \<open>file_path = "sample.pdf"\<close>, with the path as an argument.
  \<open>Inl e\<close> is the exception \<open>e\<close> leaving the script uncaught; \<open>Inr ()\<close> is the
  script running to its end.
\<close>

definition run_sample :: "'sc env \<Rightarrow> pystr \<Rightarrow> event list \<times> (exn + unit)" where
  "run_sample env file_path =
     (if path_exists env file_path then
        (case process_file env file_path of
           (l1, Inl e) \<Rightarrow> (PathExists file_path # l1, Inl e)
         | (l1, Inr (raw_text, doc_type)) \<Rightarrow>
             if raw_text \<noteq> [] then
               (case generate_metadata env raw_text doc_type of
                  (l2, Inl e) \<Rightarrow> (PathExists file_path # l1 @ l2, Inl e)
                | (l2, Inr m) \<Rightarrow>
                    (PathExists file_path # l1 @ l2 @
                       [Print (Text msg_json), Print (Json m),
                        Print (Text msg_yaml), Print (Yaml m)],
                     Inr ()))
             else (PathExists file_path # l1 @ [Print (Text msg_no_text)], Inr ()))
      else ([PathExists file_path, Print (Text msg_not_found)], Inr ()))"

section \<open>Words of a text\<close>

text \<open>
  The number of whitespace-separated tokens of a text, as the specification words it:
  a token is a maximal run of code points that are not whitespace, so the tokens are
  counted by the positions where one starts.
\<close>

definition token_count :: "pystr \<Rightarrow> nat" where
  "token_count text =
     length (filter (\<lambda>i. \<not> isspace (text ! i) \<and> (i = 0 \<or> isspace (text ! (i - 1))))
       [0 ..< length text])"

section \<open>A sample environment\<close>

text \<open>
  Eight files and two toy models, for running the functions on concrete inputs: a PDF
  with a text layer, a scanned PDF whose text layer is blank, a PDF that cannot be
  opened, a DOCX file, a text file with line feeds, one with the bytes \<open>abc\<close> and a
  carriage return and line feed, one with an accented letter, a lone carriage return
  and a blank, and a file named as text that is not UTF-8; one more path names no file. The summarizer keeps the first twelve code
  points and refuses the empty string; the keyword model returns two phrases.
\<close>

definition demo_env :: "nat env" where
  "demo_env =
     \<lparr>suffix_lower = (\<lambda>p.
          if p = py ''paper.pdf'' \<or> p = py ''scan.pdf'' \<or> p = py ''broken.pdf'' then py ''.pdf''
          else if p = py ''letter.docx'' then py ''.docx''
          else if p = py ''notes.txt'' \<or> p = py ''windows.txt'' \<or> p = py ''mac.txt'' \<or>
                  p = py ''binary.txt'' then py ''.txt''
          else []),
      path_exists = (\<lambda>p. p \<noteq> py ''missing.pdf''),
      fitz_pages = (\<lambda>p.
          if p = py ''paper.pdf'' then Inr [py '' Cats purr. They nap.'', py ''Dogs bark.  '']
          else if p = py ''scan.pdf'' then Inr [py '' '', []]
          else Inl (LibraryError ''cannot open file'')),
      docx_paragraphs = (\<lambda>p.
          if p = py ''letter.docx'' then Inr [py ''Dear reader.'', py ''Yours truly  '']
          else Inl (LibraryError ''package not found'')),
      ocr_pages = (\<lambda>p.
          if p = py ''scan.pdf'' then Inr [py ''  Scanned words here'', py ''and more '']
          else Inl (LibraryError ''unable to get page count'')),
      file_bytes = (\<lambda>p.
          if p = py ''notes.txt'' then Inr (py ''  The quick brown fox. It jumps. '' @ [10])
          else if p = py ''windows.txt'' then Inr [97, 98, 99, 13, 10]
          else if p = py ''mac.txt'' then Inr [195, 169, 13, 32]
          else if p = py ''binary.txt'' then Inr [255, 254, 65, 0]
          else Inl (LibraryError ''No such file or directory'')),
      summarizer = (\<lambda>t. if t = [] then Inl (LibraryError ''empty input'') else Inr (take 12 t)),
      extract_keywords = (\<lambda>t. Inr [(take 4 t, 2), (take 3 (drop 5 t), 1)])\<rparr>"

section \<open>Splitting, joining and stripping\<close>

lemma split_sep_takeWhile:
  "\<exists>rest. split_sep d s = takeWhile (\<lambda>c. c \<noteq> d) s # rest"
  by (induction s) auto

lemma index0_split_sep:
  "index0 (split_sep d s) = Inr (takeWhile (\<lambda>c. c \<noteq> d) s)"
proof -
  obtain rest where "split_sep d s = takeWhile (\<lambda>c. c \<noteq> d) s # rest"
    using split_sep_takeWhile by blast
  then show ?thesis by (simp add: index0_def)
qed

lemma build_metadata_eq:
  "build_metadata summ kws doc_type text =
     Inr \<lparr>title = takeWhile (\<lambda>c. c \<noteq> 46) summ, summary = summ, keywords = map fst kws,
          document_type = doc_type, word_count = int (length (split_ws text))\<rparr>"
  by (simp add: build_metadata_def index0_split_sep)

lemma takeWhile_first_dot:
  "i < length s \<Longrightarrow> s ! i = d \<Longrightarrow> \<forall>j<i. s ! j \<noteq> d \<Longrightarrow> takeWhile (\<lambda>c. c \<noteq> d) s = take i s"
  by (rule takeWhile_eq_take_P_nth) auto

lemma split_scan_length:
  "length (split_scan cur s) =
     (if cur = [] then 0 else 1) +
     length (filter (\<lambda>i. \<not> isspace (s ! i) \<and> (if i = 0 then cur = [] else isspace (s ! (i - 1))))
       [0 ..< length s])"
proof (induction s arbitrary: cur)
  case Nil
  then show ?case by simp
next
  case (Cons c cs)
  have shift: "[0 ..< length (c # cs)] = 0 # map Suc [0 ..< length cs]"
    by (simp add: upt_conv_Cons map_Suc_upt del: upt_Suc)
  show ?case
  proof (cases "isspace c")
    case True
    then show ?thesis
      unfolding shift
      by (auto simp add: Cons.IH filter_map comp_def nth_Cons' intro!: arg_cong[where f=length] filter_cong)
  next
    case False
    then show ?thesis
      unfolding shift
      by (auto simp add: Cons.IH filter_map comp_def nth_Cons' intro!: arg_cong[where f=length] filter_cong)
  qed
qed

lemma split_ws_length: "length (split_ws text) = token_count text"
  unfolding split_ws_def token_count_def split_scan_length
  by (auto intro!: arg_cong[where f=length] filter_cong)

lemma split_scan_tokens:
  "\<forall>c \<in> set cur. \<not> isspace c \<Longrightarrow>
   \<forall>w \<in> set (split_scan cur s). w \<noteq> [] \<and> (\<forall>c \<in> set w. \<not> isspace c)"
proof (induction s arbitrary: cur)
  case Nil
  then show ?case by simp
next
  case (Cons a s)
  have a: "\<forall>w \<in> set (split_scan [] s). w \<noteq> [] \<and> (\<forall>c \<in> set w. \<not> isspace c)"
    using Cons.IH[of "[]"] by simp
  show ?case
  proof (cases "isspace a")
    case True
    with a Cons.prems show ?thesis by simp
  next
    case False
    with Cons.prems have "\<forall>c \<in> set (cur @ [a]). \<not> isspace c" by simp
    from Cons.IH[OF this] False show ?thesis by simp
  qed
qed

lemma split_scan_concat:
  "concat (split_scan cur s) = cur @ filter (\<lambda>c. \<not> isspace c) s"
  by (induction s arbitrary: cur) auto

lemma split_ws_tokens:
  "\<forall>w \<in> set (split_ws s). w \<noteq> [] \<and> (\<forall>c \<in> set w. \<not> isspace c)"
  unfolding split_ws_def by (rule split_scan_tokens) simp

lemma split_ws_concat: "concat (split_ws s) = filter (\<lambda>c. \<not> isspace c) s"
  by (simp add: split_ws_def split_scan_concat)

lemma last_dropWhile:
  "dropWhile P xs \<noteq> [] \<Longrightarrow> last (dropWhile P xs) = last xs"
  by (induction xs) (auto split: if_splits)

lemma strip_ends:
  assumes "strip s \<noteq> []"
  shows "\<not> isspace (hd (strip s))" and "\<not> isspace (last (strip s))"
proof -
  let ?a = "dropWhile isspace s"
  let ?b = "dropWhile isspace (rev ?a)"
  from assms have b: "?b \<noteq> []" by (simp add: strip_def)
  have a: "?a \<noteq> []"
  proof
    assume e: "?a = []"
    have z: "?b = []" unfolding e by simp
    from b z show False by (rule notE)
  qed
  have "hd (strip s) = last ?b" using b by (simp add: strip_def hd_rev)
  also have "\<dots> = last (rev ?a)" using b by (rule last_dropWhile)
  also have "\<dots> = hd ?a" using a by (simp add: last_rev)
  finally show "\<not> isspace (hd (strip s))" using a hd_dropWhile[of isspace s] by simp
  have "last (strip s) = hd ?b" using b by (simp add: strip_def last_rev)
  then show "\<not> isspace (last (strip s))" using b hd_dropWhile[of isspace "rev ?a"] by simp
qed

lemma strip_fixed:
  assumes "t = [] \<or> (\<not> isspace (hd t) \<and> \<not> isspace (last t))"
  shows "strip t = t"
proof (cases "t = []")
  case True
  then show ?thesis by (simp add: strip_def)
next
  case False
  with assms have h: "\<not> isspace (hd t)" and l: "\<not> isspace (last t)" by auto
  from False h have a: "dropWhile isspace t = t" by (cases t) auto
  from False l have "\<not> isspace (hd (rev t))" by (simp add: hd_rev)
  with False have b: "dropWhile isspace (rev t) = rev t" by (cases "rev t") auto
  show ?thesis by (simp add: strip_def a b)
qed

lemma strip_strip: "strip (strip s) = strip s"
  using strip_ends[of s] by (intro strip_fixed) blast

section \<open>Decoding and line ends\<close>

lemma utf8_decode_ascii: "\<forall>b \<in> set bs. b < 128 \<Longrightarrow> utf8_decode bs = Inr bs"
  by (induction bs) (simp_all add: cons_decoded_def)

lemma universal_newlines_no_cr: "13 \<notin> set (universal_newlines s)"
  by (induction s rule: universal_newlines.induct) (auto split: list.splits)

lemma universal_newlines_id: "13 \<notin> set s \<Longrightarrow> universal_newlines s = s"
  by (induction s) auto

lemma universal_newlines_keeps_others:
  "filter (\<lambda>c. c \<noteq> 10 \<and> c \<noteq> 13) (universal_newlines s) =
   filter (\<lambda>c. c \<noteq> 10 \<and> c \<noteq> 13) s"
proof (induction s rule: universal_newlines.induct)
  case 1
  show ?case by simp
next
  case (2 c cs)
  show ?case
  proof (cases "c = 13")
    case False
    with 2 show ?thesis by simp
  next
    case True
    show ?thesis
    proof (cases cs)
      case Nil
      with True show ?thesis by simp
    next
      case (Cons d ds)
      show ?thesis
      proof (cases "d = 10")
        case d: True
        from 2(1)[OF True Cons d] True Cons d show ?thesis by simp
      next
        case d: False
        from 2(2)[OF True Cons d] True Cons d show ?thesis by simp
      qed
    qed
  qed
qed

section \<open>What the extraction returns\<close>

lemma py_labels:
  "py ''Scanned PDF'' \<noteq> py ''PDF''" "py ''Scanned PDF'' \<noteq> py ''DOCX''"
  "py ''Scanned PDF'' \<noteq> py ''TXT''" "py ''Scanned PDF'' \<noteq> py ''Unknown''"
  "py ''.pdf'' \<noteq> py ''.docx''" "py ''.pdf'' \<noteq> py ''.txt''" "py ''.docx'' \<noteq> py ''.txt''"
  by (simp_all add: py_def)

lemma process_file_pdf:
  "suffix_lower env p = py ''.pdf'' \<Longrightarrow>
   process_file env p =
     (case fitz_pages env p of
        Inl e \<Rightarrow> ([FitzOpen p], Inl e)
      | Inr pages \<Rightarrow>
          if strip (join_str [10] pages) = [] then
            (case ocr_pages env p of
               Inl e \<Rightarrow> ([FitzOpen p, OcrConvert p], Inl e)
             | Inr images \<Rightarrow>
                 ([FitzOpen p, OcrConvert p], Inr (strip (join_str [10] images), py ''Scanned PDF'')))
          else ([FitzOpen p], Inr (strip (join_str [10] pages), py ''PDF'')))"
  by (simp add: process_file_def dispatch_def extract_text_from_pdf_def extract_text_via_ocr_def
      split: sum.splits)

lemma process_file_docx:
  "suffix_lower env p = py ''.docx'' \<Longrightarrow>
   process_file env p =
     (case docx_paragraphs env p of
        Inl e \<Rightarrow> ([DocxOpen p], Inl e)
      | Inr paras \<Rightarrow> ([DocxOpen p], Inr (strip (join_str [10] paras), py ''DOCX'')))"
  using py_labels(5)
  by (simp add: process_file_def dispatch_def extract_text_from_docx_def split: sum.splits)

lemma process_file_txt:
  "suffix_lower env p = py ''.txt'' \<Longrightarrow>
   process_file env p =
     (case read_text env p of
        Inl e \<Rightarrow> ([ReadText p], Inl e)
      | Inr content \<Rightarrow> ([ReadText p], Inr (content, py ''TXT'')))"
  using py_labels(6,7)
  by (simp add: process_file_def dispatch_def split: sum.splits)

lemma process_file_other:
  "suffix_lower env p \<noteq> py ''.pdf'' \<Longrightarrow> suffix_lower env p \<noteq> py ''.docx'' \<Longrightarrow>
   suffix_lower env p \<noteq> py ''.txt'' \<Longrightarrow> process_file env p = ([], Inr ([], py ''Unknown''))"
  by (simp add: process_file_def dispatch_def)

lemma scanned_only_from_pdf:
  assumes "snd (process_file env p) = Inr (t, py ''Scanned PDF'')"
  shows "suffix_lower env p = py ''.pdf''"
proof (rule ccontr)
  assume n: "suffix_lower env p \<noteq> py ''.pdf''"
  consider "suffix_lower env p = py ''.docx''" | "suffix_lower env p = py ''.txt''"
    | "suffix_lower env p \<noteq> py ''.docx''" "suffix_lower env p \<noteq> py ''.txt''"
    by blast
  then show False
  proof cases
    case 1
    with assms py_labels(2) show False
      by (cases "docx_paragraphs env p") (auto simp add: process_file_docx)
  next
    case 2
    with assms py_labels(3) show False
      by (cases "read_text env p") (auto simp add: process_file_txt)
  next
    case 3
    with assms n py_labels(4) show False
      by (auto simp add: process_file_other)
  qed
qed

lemma process_file_no_print: "Print x \<notin> set (fst (process_file env p))"
  by (cases "fitz_pages env p"; cases "ocr_pages env p"; cases "docx_paragraphs env p";
      cases "read_text env p")
     (simp_all add: process_file_def dispatch_def extract_text_from_pdf_def
        extract_text_via_ocr_def extract_text_from_docx_def)

section \<open>What the metadata generators return\<close>

lemma generate_metadata_result:
  "snd (generate_metadata env text doc_type) =
     (case summarizer env (if length text > 1024 then take 1024 text else text) of
        Inl e \<Rightarrow> Inl e
      | Inr summ \<Rightarrow>
          (case extract_keywords env text of
             Inl e \<Rightarrow> Inl e
           | Inr kws \<Rightarrow>
               Inr \<lparr>title = takeWhile (\<lambda>c. c \<noteq> 46) summ, summary = summ,
                    keywords = map fst kws, document_type = doc_type,
                    word_count = int (length (split_ws text))\<rparr>))"
  by (simp add: generate_metadata_def Let_def build_metadata_eq split: sum.splits)

lemma generate_metadata_events:
  "fst (generate_metadata env text doc_type) =
     Summarize (if length text > 1024 then take 1024 text else text) #
     (if isl (summarizer env (if length text > 1024 then take 1024 text else text)) then []
      else [ExtractKeywords text])"
  by (simp add: generate_metadata_def Let_def split: sum.splits)

lemma generate_metadata_no_print: "Print x \<notin> set (fst (generate_metadata env t d))"
  by (simp add: generate_metadata_events)

lemma summarize_chunks_acc:
  "summarize_chunks env cs acc =
     (fst (summarize_chunks env cs []), map_sum id (\<lambda>ss. acc @ ss) (snd (summarize_chunks env cs [])))"
proof (induction cs arbitrary: acc)
  case Nil
  show ?case by simp
next
  case (Cons c cs)
  show ?case
  proof (cases "summarizer env c")
    case (Inl e)
    then show ?thesis by simp
  next
    case (Inr x)
    show ?thesis
      using Inr Cons.IH[of "acc @ [x]"] Cons.IH[of "[x]"]
      by (cases "snd (summarize_chunks env cs [])") (simp_all split: prod.splits)
  qed
qed

lemma summarize_chunks_all_ok:
  "\<forall>c \<in> set cs. \<not> isl (summarizer env c) \<Longrightarrow>
   summarize_chunks env cs [] = (map Summarize cs, Inr (map (\<lambda>c. projr (summarizer env c)) cs))"
proof (induction cs)
  case Nil
  show ?case by simp
next
  case (Cons c cs)
  from Cons.prems obtain s where s: "summarizer env c = Inr s"
    by (cases "summarizer env c") auto
  from Cons have ih: "summarize_chunks env cs [] = (map Summarize cs, Inr (map (\<lambda>c. projr (summarizer env c)) cs))"
    by simp
  show ?case
    using s ih summarize_chunks_acc[of env cs "[s]"] by simp
qed

lemma summarize_chunks_returns:
  "snd (summarize_chunks env cs []) = Inr ss \<Longrightarrow> \<forall>c \<in> set cs. \<not> isl (summarizer env c)"
proof (induction cs arbitrary: ss)
  case Nil
  show ?case by simp
next
  case (Cons c cs)
  from Cons.prems obtain s where s: "summarizer env c = Inr s"
    by (cases "summarizer env c") auto
  from Cons.prems s obtain ss' where "snd (summarize_chunks env cs []) = Inr ss'"
    using summarize_chunks_acc[of env cs "[s]"]
    by (cases "snd (summarize_chunks env cs [])") (auto split: prod.splits)
  with Cons.IH s show ?case by simp
qed

lemma summarize_chunks_events:
  "fst (summarize_chunks env cs acc) =
     map Summarize (take (Suc (length (takeWhile (\<lambda>c. \<not> isl (summarizer env c)) cs))) cs)"
proof (induction cs arbitrary: acc)
  case Nil
  show ?case by simp
next
  case (Cons c cs)
  show ?case
  proof (cases "summarizer env c")
    case (Inl e)
    then show ?thesis by simp
  next
    case (Inr s)
    with Cons.IH[of "acc @ [s]"] show ?thesis
      by (cases "summarize_chunks env cs (acc @ [s])") simp
  qed
qed

lemma generate_metadata_ui_result:
  "snd (generate_metadata_ui env text doc_type) =
     (case snd (summarize_long_text env text 1000 5) of
        Inl e \<Rightarrow> Inl e
      | Inr summ \<Rightarrow>
          (case extract_keywords env text of
             Inl e \<Rightarrow> Inl e
           | Inr kws \<Rightarrow>
               Inr \<lparr>title = takeWhile (\<lambda>c. c \<noteq> 46) summ, summary = summ,
                    keywords = map fst kws, document_type = doc_type,
                    word_count = int (length (split_ws text))\<rparr>))"
  by (simp add: generate_metadata_ui_def build_metadata_eq split: prod.splits sum.splits)

section \<open>Chunks\<close>

lemma chunks_of_length:
  "length (chunks_of n text) = (length text + n - 1) div n"
  by (simp add: chunks_of_def)

lemma chunks_of_nth:
  "k < length (chunks_of n text) \<Longrightarrow> chunks_of n text ! k = take n (drop (k * n) text)"
  by (simp add: chunks_of_def)

lemma concat_slices:
  "concat (map (\<lambda>k. take n (drop (k * n) text)) [0 ..< j]) = take (j * n) text"
proof (induction j)
  case 0
  show ?case by simp
next
  case (Suc j)
  have "take (j * n + n) text = take (j * n) text @ take n (drop (j * n) text)"
    by (rule take_add)
  with Suc show ?case by (simp add: add.commute)
qed

lemma take_chunks_of:
  "take j (chunks_of n text) =
     map (\<lambda>k. take n (drop (k * n) text)) [0 ..< min j ((length text + n - 1) div n)]"
proof (cases "j \<le> (length text + n - 1) div n")
  case True
  then have "take j [0 ..< (length text + n - 1) div n] = [0 ..< j]" by simp
  with True show ?thesis by (simp add: chunks_of_def take_map min.absorb1)
next
  case False
  then show ?thesis by (simp add: chunks_of_def min.absorb2)
qed

lemma chunks_cover:
  assumes "0 < n"
  shows "length text \<le> ((length text + n - 1) div n) * n"
proof -
  have "length text + n - 1 < ((length text + n - 1) div n) * n + n"
    using assms div_mult_mod_eq[of "length text + n - 1" n] mod_less_divisor[OF assms, of "length text + n - 1"]
    by linarith
  then show ?thesis using assms by linarith
qed

lemma concat_take_chunks_of:
  assumes "0 < n"
  shows "concat (take j (chunks_of n text)) = take (j * n) text"
proof (cases "j \<le> (length text + n - 1) div n")
  case True
  then show ?thesis by (simp add: take_chunks_of concat_slices min.absorb1)
next
  case False
  then have "((length text + n - 1) div n) * n \<le> j * n" by simp
  with chunks_cover[OF assms, of "text"] have "length text \<le> j * n" by linarith
  with False chunks_cover[OF assms, of "text"] show ?thesis
    by (simp add: take_chunks_of concat_slices min.absorb2)
qed

lemma concat_chunks_of:
  assumes "0 < n"
  shows "concat (chunks_of n text) = text"
proof -
  have "concat (chunks_of n text) = concat (take (length (chunks_of n text)) (chunks_of n text))"
    by simp
  also have "\<dots> = take (length (chunks_of n text) * n) text"
    by (rule concat_take_chunks_of[OF assms])
  also have "\<dots> = text"
    using chunks_cover[OF assms, of "text"] by (simp add: chunks_of_length)
  finally show ?thesis .
qed

lemma chunk_sizes:
  assumes "0 < n" and "k < length (chunks_of n text)"
  shows "0 < length (chunks_of n text ! k)"
    and "length (chunks_of n text ! k) \<le> n"
    and "Suc k < length (chunks_of n text) \<Longrightarrow> length (chunks_of n text ! k) = n"
proof -
  have len: "length (chunks_of n text ! k) = min (length text - k * n) n"
    using assms(2) by (simp add: chunks_of_nth min.commute)
  have k: "k < (length text + n - 1) div n"
    using assms(2) by (simp add: chunks_of_length)
  then have "Suc k \<le> (length text + n - 1) div n" by simp
  then have "Suc k * n \<le> length text + n - 1"
    using assms(1) by (simp only: less_eq_div_iff_mult_less_eq)
  then have "k * n + n \<le> length text + n - 1" by simp
  then have "k * n < length text" using assms(1) by linarith
  then show "0 < length (chunks_of n text ! k)" using assms(1) by (simp add: len)
  show "length (chunks_of n text ! k) \<le> n" by (simp add: len)
  show "length (chunks_of n text ! k) = n" if "Suc k < length (chunks_of n text)"
  proof -
    from that have "Suc (Suc k) \<le> (length text + n - 1) div n" by (simp add: chunks_of_length)
    then have "Suc (Suc k) * n \<le> length text + n - 1"
      using assms(1) by (simp only: less_eq_div_iff_mult_less_eq)
    then have "k * n + n \<le> length text" using assms(1) by simp
    then show ?thesis by (simp add: len)
  qed
qed

lemma upt6: "[0 ..< 6] = [0, 1, 2, 3, 4, 5::nat]"
  by (simp add: upt_rec)

section \<open>What the entry point does\<close>

lemma run_sample_raises:
  "snd (run_sample env p) = Inl e \<longleftrightarrow>
     path_exists env p \<and>
     (snd (process_file env p) = Inl e \<or>
      (\<exists>t d. snd (process_file env p) = Inr (t, d) \<and> t \<noteq> [] \<and>
             snd (generate_metadata env t d) = Inl e))"
proof (cases "process_file env p")
  case (Pair l1 r)
  show ?thesis
  proof (cases r)
    case (Inl x)
    with Pair show ?thesis by (simp add: run_sample_def)
  next
    case (Inr td)
    obtain t d where td: "td = (t, d)" by (cases td)
    obtain l2 r2 where g: "generate_metadata env t d = (l2, r2)"
      by (cases "generate_metadata env t d")
    show ?thesis
      using Pair Inr td g by (cases r2) (simp_all add: run_sample_def)
  qed
qed

lemma run_sample_raises_no_print:
  assumes "snd (run_sample env p) = Inl e"
  shows "Print x \<notin> set (fst (run_sample env p))"
proof (cases "process_file env p")
  case (Pair l1 r)
  from process_file_no_print[of x env p] Pair have l1: "Print x \<notin> set l1" by simp
  show ?thesis
  proof (cases r)
    case (Inl x)
    with Pair l1 assms show ?thesis by (simp add: run_sample_def split: if_splits)
  next
    case (Inr td)
    obtain t d where td: "td = (t, d)" by (cases td)
    obtain l2 r2 where g: "generate_metadata env t d = (l2, r2)"
      by (cases "generate_metadata env t d")
    from generate_metadata_no_print[of x env t d] g have l2: "Print x \<notin> set l2" by simp
    show ?thesis
      using Pair Inr td g l1 l2 assms
      by (cases r2) (simp_all add: run_sample_def split: if_splits)
  qed
qed

section \<open>The OCR fallback\<close>

text \<open>
  C1. For a path whose lower-cased suffix is \<open>.pdf\<close>: when the direct extraction
  returns the empty string, \<open>process_file\<close> calls the OCR after it and, unless the OCR
  raises, returns the OCR text with the document type \<open>Scanned PDF\<close>; when the direct
  extraction returns a non-empty string, \<open>process_file\<close> returns it with the document
  type \<open>PDF\<close> and makes no OCR call on any path. Whenever \<open>process_file\<close> returns the
  document type \<open>Scanned PDF\<close>, the suffix is \<open>.pdf\<close>, the direct extraction returned
  the empty string and the OCR was called.
\<close>

theorem pdf_falls_back_to_ocr_only_without_text_layer:
  "(suffix_lower env p = py ''.pdf'' \<and> snd (extract_text_from_pdf env p) = Inr [] \<longrightarrow>
      fst (process_file env p) = [FitzOpen p, OcrConvert p] \<and>
      snd (process_file env p) =
        map_sum id (\<lambda>t. (t, py ''Scanned PDF'')) (snd (extract_text_via_ocr env p))) \<and>
   (suffix_lower env p = py ''.pdf'' \<and> snd (extract_text_from_pdf env p) = Inr t \<and> t \<noteq> [] \<longrightarrow>
      process_file env p = ([FitzOpen p], Inr (t, py ''PDF'')) \<and>
      (\<forall>q. OcrConvert q \<notin> set (fst (process_file env p)))) \<and>
   (snd (process_file env p) = Inr (t', py ''Scanned PDF'') \<longrightarrow>
      suffix_lower env p = py ''.pdf'' \<and> snd (extract_text_from_pdf env p) = Inr [] \<and>
      OcrConvert p \<in> set (fst (process_file env p)))"
proof (intro conjI impI)
  assume a: "suffix_lower env p = py ''.pdf'' \<and> snd (extract_text_from_pdf env p) = Inr []"
  then show "fst (process_file env p) = [FitzOpen p, OcrConvert p]"
    by (cases "fitz_pages env p"; cases "ocr_pages env p")
       (auto simp add: process_file_pdf extract_text_from_pdf_def)
  from a show "snd (process_file env p) =
        map_sum id (\<lambda>t. (t, py ''Scanned PDF'')) (snd (extract_text_via_ocr env p))"
    by (cases "fitz_pages env p"; cases "ocr_pages env p")
       (auto simp add: process_file_pdf extract_text_from_pdf_def extract_text_via_ocr_def)
next
  assume b: "suffix_lower env p = py ''.pdf'' \<and> snd (extract_text_from_pdf env p) = Inr t \<and> t \<noteq> []"
  then show pf: "process_file env p = ([FitzOpen p], Inr (t, py ''PDF''))"
    by (cases "fitz_pages env p") (auto simp add: process_file_pdf extract_text_from_pdf_def)
  show "\<forall>q. OcrConvert q \<notin> set (fst (process_file env p))"
    by (simp add: pf)
next
  assume c: "snd (process_file env p) = Inr (t', py ''Scanned PDF'')"
  then show ext: "suffix_lower env p = py ''.pdf''"
    by (rule scanned_only_from_pdf)
  from c py_labels(1) show "snd (extract_text_from_pdf env p) = Inr []"
    by (cases "fitz_pages env p"; cases "ocr_pages env p")
       (auto simp add: process_file_pdf[OF ext] extract_text_from_pdf_def split: if_splits)
  from c py_labels(1) show "OcrConvert p \<in> set (fst (process_file env p))"
    by (cases "fitz_pages env p"; cases "ocr_pages env p")
       (auto simp add: process_file_pdf[OF ext] split: if_splits)
qed

theorem pdf_falls_back_to_ocr_only_without_text_layer_witness:
  "process_file demo_env (py ''scan.pdf'') =
     ([FitzOpen (py ''scan.pdf''), OcrConvert (py ''scan.pdf'')],
      Inr (py ''Scanned words here'' @ [10] @ py ''and more'', py ''Scanned PDF'')) \<and>
   snd (extract_text_from_pdf demo_env (py ''scan.pdf'')) = Inr [] \<and>
   process_file demo_env (py ''paper.pdf'') =
     ([FitzOpen (py ''paper.pdf'')],
      Inr (py ''Cats purr. They nap.'' @ [10] @ py ''Dogs bark.'', py ''PDF'')) \<and>
   OcrConvert (py ''paper.pdf'') \<notin> set (fst (process_file demo_env (py ''paper.pdf'')))"
  using
    pdf_falls_back_to_ocr_only_without_text_layer[of demo_env "py ''scan.pdf''" "[]"
      "py ''Scanned words here'' @ [10] @ py ''and more''"]
    pdf_falls_back_to_ocr_only_without_text_layer[of demo_env "py ''paper.pdf''"
      "py ''Cats purr. They nap.'' @ [10] @ py ''Dogs bark.''" "[]"]
  by (simp add: process_file_def dispatch_def extract_text_from_pdf_def extract_text_via_ocr_def
      demo_env_def py_def strip_def isspace_def)

section \<open>Truncation before summarizing\<close>

text \<open>
  C2. The truncating \<open>generate_metadata\<close> calls the summarizer once, on the first 1024
  code points of a text longer than 1024 and on the whole text otherwise; when the
  summarizer returns, the next call is the keyword model on the full text, so the
  keyword model never reads a truncated text.
\<close>

theorem summarizer_gets_first_1024_keywords_get_all:
  "(let short_text = (if length text > 1024 then take 1024 text else text) in
      fst (generate_metadata env text doc_type) =
        Summarize short_text #
        (case summarizer env short_text of Inl e \<Rightarrow> [] | Inr s \<Rightarrow> [ExtractKeywords text]) \<and>
      (length text > 1024 \<longrightarrow> length short_text = 1024 \<and> short_text = take 1024 text) \<and>
      (length text \<le> 1024 \<longrightarrow> short_text = text))"
proof -
  let ?short = "if length text > 1024 then take 1024 text else text"
  have calls: "fst (generate_metadata env text doc_type) =
      Summarize ?short #
      (case summarizer env ?short of Inl e \<Rightarrow> [] | Inr s \<Rightarrow> [ExtractKeywords text])"
  proof (cases "summarizer env ?short")
    case (Inl e)
    then show ?thesis by (simp add: generate_metadata_def Let_def)
  next
    case (Inr s)
    then show ?thesis
      by (cases "extract_keywords env text") (simp_all add: generate_metadata_def Let_def)
  qed
  have long: "length text > 1024 \<longrightarrow> length ?short = 1024 \<and> ?short = take 1024 text"
    by simp
  have short: "length text \<le> 1024 \<longrightarrow> ?short = text"
    by simp
  from calls long short show ?thesis
    unfolding Let_def by (intro conjI)
qed

theorem summarizer_gets_first_1024_keywords_get_all_witness:
  "fst (generate_metadata demo_env (replicate 1024 97 @ replicate 500 98) (py ''TXT'')) =
     [Summarize (replicate 1024 97), ExtractKeywords (replicate 1024 97 @ replicate 500 98)]"
  using summarizer_gets_first_1024_keywords_get_all[of "replicate 1024 97 @ replicate 500 98"
    demo_env "py ''TXT''"]
  by (simp add: demo_env_def Let_def)

section \<open>Summarizing by chunks\<close>

text \<open>
  C3. With a chunk size of 1000 and at most 5 chunks, for a text of any length: the
  chunks concatenate to the text, chunk \<open>k\<close> is the slice of 1000 code points at offset
  \<open>1000 k\<close>, no chunk is empty, every chunk but the last has 1000 code points; the
  first five chunks are the first 5000 code points; the summarizer is called on the
  first five chunks in order, stopping after the first call that raises; and when no
  call raises, \<open>summarize_long_text\<close> returns the summaries of the first five chunks
  joined by one space, in chunk order. It returns a summary only then.
\<close>

theorem chunked_summary_of_first_five_chunks:
  "concat (chunks_of 1000 text) = text \<and>
   (\<forall>k < length (chunks_of 1000 text).
      chunks_of 1000 text ! k = take 1000 (drop (k * 1000) text) \<and>
      0 < length (chunks_of 1000 text ! k) \<and> length (chunks_of 1000 text ! k) \<le> 1000 \<and>
      (Suc k < length (chunks_of 1000 text) \<longrightarrow> length (chunks_of 1000 text ! k) = 1000)) \<and>
   concat (take 5 (chunks_of 1000 text)) = take 5000 text \<and>
   fst (summarize_long_text env text 1000 5) =
     map Summarize
       (take (Suc (length (takeWhile (\<lambda>c. \<not> isl (summarizer env c)) (take 5 (chunks_of 1000 text)))))
          (take 5 (chunks_of 1000 text))) \<and>
   ((\<forall>c \<in> set (take 5 (chunks_of 1000 text)). \<not> isl (summarizer env c)) \<longrightarrow>
      summarize_long_text env text 1000 5 =
        (map Summarize (take 5 (chunks_of 1000 text)),
         Inr (join_str [32] (map (\<lambda>c. projr (summarizer env c)) (take 5 (chunks_of 1000 text)))))) \<and>
   (\<forall>s. snd (summarize_long_text env text 1000 5) = Inr s \<longrightarrow>
      (\<forall>c \<in> set (take 5 (chunks_of 1000 text)). \<not> isl (summarizer env c)))"
proof -
  have pos: "(0::nat) < 1000" by simp
  have a: "concat (chunks_of 1000 text) = text"
    by (rule concat_chunks_of[OF pos])
  have b: "\<forall>k < length (chunks_of 1000 text).
      chunks_of 1000 text ! k = take 1000 (drop (k * 1000) text) \<and>
      0 < length (chunks_of 1000 text ! k) \<and> length (chunks_of 1000 text ! k) \<le> 1000 \<and>
      (Suc k < length (chunks_of 1000 text) \<longrightarrow> length (chunks_of 1000 text ! k) = 1000)"
    using chunks_of_nth[of _ 1000 "text"] chunk_sizes[OF pos, of _ "text"] by blast
  have c: "concat (take 5 (chunks_of 1000 text)) = take 5000 text"
    using concat_take_chunks_of[OF pos, of 5 "text"] by simp
  have d: "fst (summarize_long_text env text 1000 5) =
     map Summarize
       (take (Suc (length (takeWhile (\<lambda>c. \<not> isl (summarizer env c)) (take 5 (chunks_of 1000 text)))))
          (take 5 (chunks_of 1000 text)))"
  proof -
    obtain l r where lr: "summarize_chunks env (take 5 (chunks_of 1000 text)) [] = (l, r)"
      by (cases "summarize_chunks env (take 5 (chunks_of 1000 text)) []") blast
    have "fst (summarize_long_text env text 1000 5) = l"
      by (cases r) (simp_all add: summarize_long_text_def lr)
    also have "l = fst (summarize_chunks env (take 5 (chunks_of 1000 text)) [])"
      by (simp add: lr)
    finally show ?thesis
      by (simp only: summarize_chunks_events)
  qed
  have e: "(\<forall>c \<in> set (take 5 (chunks_of 1000 text)). \<not> isl (summarizer env c)) \<longrightarrow>
      summarize_long_text env text 1000 5 =
        (map Summarize (take 5 (chunks_of 1000 text)),
         Inr (join_str [32] (map (\<lambda>c. projr (summarizer env c)) (take 5 (chunks_of 1000 text)))))"
    by (simp add: summarize_long_text_def summarize_chunks_all_ok)
  have f: "\<forall>s. snd (summarize_long_text env text 1000 5) = Inr s \<longrightarrow>
      (\<forall>c \<in> set (take 5 (chunks_of 1000 text)). \<not> isl (summarizer env c))"
  proof (intro allI impI)
    fix s
    assume "snd (summarize_long_text env text 1000 5) = Inr s"
    then obtain ss where "snd (summarize_chunks env (take 5 (chunks_of 1000 text)) []) = Inr ss"
      by (cases "snd (summarize_chunks env (take 5 (chunks_of 1000 text)) [])")
         (auto simp add: summarize_long_text_def split: prod.splits sum.splits)
    then show "\<forall>c \<in> set (take 5 (chunks_of 1000 text)). \<not> isl (summarizer env c)"
      by (rule summarize_chunks_returns)
  qed
  from a b c d e f show ?thesis by blast
qed

theorem chunked_summary_of_first_five_chunks_witness:
  "chunks_of 1000 (replicate 1000 97 @ replicate 1000 98 @ replicate 1000 99 @
      replicate 1000 100 @ replicate 1000 101 @ replicate 500 102) =
     [replicate 1000 97, replicate 1000 98, replicate 1000 99, replicate 1000 100,
      replicate 1000 101, replicate 500 102] \<and>
   summarize_long_text demo_env (replicate 1000 97 @ replicate 1000 98 @ replicate 1000 99 @
      replicate 1000 100 @ replicate 1000 101 @ replicate 500 102) 1000 5 =
     ([Summarize (replicate 1000 97), Summarize (replicate 1000 98), Summarize (replicate 1000 99),
       Summarize (replicate 1000 100), Summarize (replicate 1000 101)],
      Inr (replicate 12 97 @ [32] @ replicate 12 98 @ [32] @ replicate 12 99 @ [32] @
           replicate 12 100 @ [32] @ replicate 12 101))"
proof -
  have cs: "chunks_of 1000 (replicate 1000 97 @ replicate 1000 98 @ replicate 1000 99 @
      replicate 1000 100 @ replicate 1000 101 @ replicate 500 102) =
     [replicate 1000 97, replicate 1000 98, replicate 1000 99, replicate 1000 100,
      replicate 1000 101, replicate 500 102]"
    by (simp add: chunks_of_def upt6)
  show ?thesis
    using chunked_summary_of_first_five_chunks[of "replicate 1000 97 @ replicate 1000 98 @ replicate 1000 99 @
      replicate 1000 100 @ replicate 1000 101 @ replicate 500 102" demo_env]
    unfolding cs
    by (simp add: demo_env_def)
qed

section \<open>The title\<close>

text \<open>
  C4, as the code has it. In every record that the truncating \<open>generate_metadata\<close>
  returns, the title is the part of the summary before the first position that holds a
  full stop (code point 46); when the summary has no full stop, the title is the whole
  summary.
\<close>

theorem title_before_first_dot_or_whole:
  assumes "snd (generate_metadata env text doc_type) = Inr m"
  shows "(\<forall>i. i < length (summary m) \<and> summary m ! i = 46 \<and> (\<forall>j<i. summary m ! j \<noteq> 46)
            \<longrightarrow> title m = take i (summary m)) \<and>
         (46 \<notin> set (summary m) \<longrightarrow> title m = summary m)"
proof -
  have t: "title m = takeWhile (\<lambda>c. c \<noteq> 46) (summary m)"
    using assms by (auto simp add: generate_metadata_result split: sum.splits)
  show ?thesis
    unfolding t by (auto simp add: takeWhile_first_dot)
qed

theorem title_before_first_dot_or_whole_witness:
  "snd (generate_metadata demo_env (py ''Cats purr. They nap.'') (py ''PDF'')) =
     Inr \<lparr>title = py ''Cats purr'', summary = py ''Cats purr. T'',
          keywords = [py ''Cats'', py ''pur''], document_type = py ''PDF'', word_count = 4\<rparr> \<and>
   py ''Cats purr. T'' ! 9 = 46 \<and> py ''Cats purr'' = take 9 (py ''Cats purr. T'') \<and>
   46 \<notin> set (py ''Cats purr'')"
  using title_before_first_dot_or_whole[of demo_env "py ''Cats purr. They nap.''" "py ''PDF''"
    "\<lparr>title = py ''Cats purr'', summary = py ''Cats purr. T'',
          keywords = [py ''Cats'', py ''pur''], document_type = py ''PDF'', word_count = 4\<rparr>"]
  by (simp add: generate_metadata_result demo_env_def py_def split_ws_def isspace_def)

text \<open>
  The claim as written has the title empty when the summary has no full stop. The
  summary \<open>Scanned word\<close> has none, and the title is that summary.
\<close>

theorem title_without_dot_counterexample:
  "snd (generate_metadata demo_env (py ''Scanned words here'') (py ''Scanned PDF'')) =
     Inr \<lparr>title = py ''Scanned word'', summary = py ''Scanned word'',
          keywords = [py ''Scan'', py ''ed ''], document_type = py ''Scanned PDF'',
          word_count = 3\<rparr> \<and>
   46 \<notin> set (py ''Scanned word'') \<and> py ''Scanned word'' \<noteq> []"
  by (simp add: generate_metadata_result demo_env_def py_def split_ws_def isspace_def)

text \<open>
  C5. In every record that \<open>generate_metadata\<close> returns, in the truncating variant and
  in the chunking variant of the UI, the title is the prefix of the summary before the
  summary's first full stop (code point 46): the title has no full stop and is followed
  in the summary by one. When the summary has no full stop, the title is the whole
  summary.
\<close>

theorem title_is_prefix_before_first_dot:
  assumes "snd (generate_metadata env text doc_type) = Inr m \<or>
           snd (generate_metadata_ui env text doc_type) = Inr m"
  shows "title m = takeWhile (\<lambda>c. c \<noteq> 46) (summary m) \<and>
         (46 \<notin> set (summary m) \<longrightarrow> title m = summary m) \<and>
         (46 \<in> set (summary m) \<longrightarrow>
            46 \<notin> set (title m) \<and> take (Suc (length (title m))) (summary m) = title m @ [46])"
proof -
  have t: "title m = takeWhile (\<lambda>c. c \<noteq> 46) (summary m)"
    using assms
    by (auto simp add: generate_metadata_result generate_metadata_ui_result split: sum.splits)
  have a: "46 \<notin> set (summary m) \<longrightarrow> title m = summary m"
    unfolding t by auto
  have b: "46 \<notin> set (title m)"
    unfolding t by (auto dest: set_takeWhileD)
  have c: "46 \<in> set (summary m) \<longrightarrow> take (Suc (length (title m))) (summary m) = title m @ [46]"
  proof
    assume d: "46 \<in> set (summary m)"
    have "summary m = title m @ dropWhile (\<lambda>c. c \<noteq> 46) (summary m)"
      unfolding t by simp
    moreover from d have "dropWhile (\<lambda>c. c \<noteq> 46) (summary m) \<noteq> []"
      by simp
    then obtain r where "dropWhile (\<lambda>c. c \<noteq> 46) (summary m) = 46 # r"
      using hd_dropWhile[of "\<lambda>c. c \<noteq> 46" "summary m"]
      by (cases "dropWhile (\<lambda>c. c \<noteq> 46) (summary m)") auto
    ultimately have "summary m = title m @ 46 # r" by simp
    then have "take (Suc (length (title m))) (summary m) = take (Suc (length (title m))) (title m @ 46 # r)"
      by simp
    then show "take (Suc (length (title m))) (summary m) = title m @ [46]" by simp
  qed
  from t a b c show ?thesis by blast
qed

theorem title_is_prefix_before_first_dot_witness:
  "title \<lparr>title = py ''Cats purr'', summary = py ''Cats purr. T'',
          keywords = [py ''Cats'', py ''pur''], document_type = py ''PDF'', word_count = 4\<rparr>
     = takeWhile (\<lambda>c. c \<noteq> 46) (py ''Cats purr. T'') \<and>
   snd (generate_metadata demo_env (py ''Cats purr. They nap.'') (py ''PDF'')) =
     Inr \<lparr>title = py ''Cats purr'', summary = py ''Cats purr. T'',
          keywords = [py ''Cats'', py ''pur''], document_type = py ''PDF'', word_count = 4\<rparr>"
  using title_is_prefix_before_first_dot[of demo_env "py ''Cats purr. They nap.''" "py ''PDF''"
    "\<lparr>title = py ''Cats purr'', summary = py ''Cats purr. T'',
          keywords = [py ''Cats'', py ''pur''], document_type = py ''PDF'', word_count = 4\<rparr>"]
  by (simp add: generate_metadata_result demo_env_def py_def split_ws_def isspace_def)

section \<open>The word count\<close>

text \<open>
  C6. In every record that \<open>generate_metadata\<close> returns, in either variant, the word
  count is the number of whitespace-separated tokens of the full text it was given:
  it depends on neither the summary nor the truncation or the chunking.
\<close>

theorem word_count_counts_tokens_of_full_text:
  assumes "snd (generate_metadata env text doc_type) = Inr m \<or>
           snd (generate_metadata_ui env text doc_type) = Inr m"
  shows "word_count m = int (token_count text)"
  using assms
  by (auto simp add: generate_metadata_result generate_metadata_ui_result split_ws_length
      split: sum.splits)

theorem word_count_counts_tokens_of_full_text_witness:
  "snd (generate_metadata demo_env (py ''  The quick brown fox. It jumps. '' @ [10]) (py ''TXT'')) =
     Inr \<lparr>title = py ''  The quick '', summary = py ''  The quick '',
          keywords = [py ''  Th'', py '' qu''], document_type = py ''TXT'', word_count = 6\<rparr> \<and>
   token_count (py ''  The quick brown fox. It jumps. '' @ [10]) = 6"
  using word_count_counts_tokens_of_full_text[of demo_env
    "py ''  The quick brown fox. It jumps. '' @ [10]" "py ''TXT''"
    "\<lparr>title = py ''  The quick '', summary = py ''  The quick '',
          keywords = [py ''  Th'', py '' qu''], document_type = py ''TXT'', word_count = 6\<rparr>"]
  by (simp add: generate_metadata_result demo_env_def py_def split_ws_def isspace_def)

section \<open>Text files\<close>

text \<open>
  C7, as the code has it. For a path whose lower-cased suffix is \<open>.txt\<close> and a file
  whose bytes are UTF-8, \<open>process_file\<close> returns, with the document type \<open>TXT\<close>, the
  decoded content with its line ends translated: the result has no carriage return,
  every code point that is neither a carriage return nor a line feed is kept in its
  place, and nothing is stripped. When the content has no carriage return the result
  is the decoded content itself, and for ASCII bytes without a carriage return it is
  the bytes of the file. The text returned for a \<open>.pdf\<close> or a \<open>.docx\<close> path is
  stripped: it is a fixed point of \<open>strip\<close>, and when it is not empty it neither
  starts nor ends with whitespace.
\<close>

theorem txt_is_decoded_with_line_ends_translated:
  "(suffix_lower env p = py ''.txt'' \<and> file_bytes env p = Inr bs \<and>
    utf8_decode bs = Inr content \<longrightarrow>
      process_file env p = ([ReadText p], Inr (universal_newlines content, py ''TXT'')) \<and>
      13 \<notin> set (universal_newlines content) \<and>
      filter (\<lambda>c. c \<noteq> 10 \<and> c \<noteq> 13) (universal_newlines content) =
        filter (\<lambda>c. c \<noteq> 10 \<and> c \<noteq> 13) content \<and>
      (13 \<notin> set content \<longrightarrow>
         process_file env p = ([ReadText p], Inr (content, py ''TXT'')))) \<and>
   (suffix_lower env p = py ''.txt'' \<and> file_bytes env p = Inr bs \<and>
    (\<forall>b \<in> set bs. b < 128 \<and> b \<noteq> 13) \<longrightarrow>
      process_file env p = ([ReadText p], Inr (bs, py ''TXT''))) \<and>
   ((suffix_lower env p = py ''.pdf'' \<or> suffix_lower env p = py ''.docx'') \<and>
    snd (process_file env p) = Inr (t, d) \<longrightarrow>
      strip t = t \<and> (t \<noteq> [] \<longrightarrow> \<not> isspace (hd t) \<and> \<not> isspace (last t)))"
proof (intro conjI impI)
  assume a: "suffix_lower env p = py ''.txt'' \<and> file_bytes env p = Inr bs \<and>
    utf8_decode bs = Inr content"
  then have r: "read_text env p = Inr (universal_newlines content)"
    by (simp add: read_text_def)
  from a r show pf: "process_file env p =
      ([ReadText p], Inr (universal_newlines content, py ''TXT''))"
    by (simp add: process_file_txt)
  show "13 \<notin> set (universal_newlines content)"
    by (rule universal_newlines_no_cr)
  show "filter (\<lambda>c. c \<noteq> 10 \<and> c \<noteq> 13) (universal_newlines content) =
        filter (\<lambda>c. c \<noteq> 10 \<and> c \<noteq> 13) content"
    by (rule universal_newlines_keeps_others)
  show "process_file env p = ([ReadText p], Inr (content, py ''TXT''))"
    if "13 \<notin> set content"
    using pf universal_newlines_id[OF that] by simp
next
  assume a: "suffix_lower env p = py ''.txt'' \<and> file_bytes env p = Inr bs \<and>
    (\<forall>b \<in> set bs. b < 128 \<and> b \<noteq> 13)"
  then have dec: "utf8_decode bs = Inr bs"
    by (intro utf8_decode_ascii) blast
  from a have "13 \<notin> set bs" by blast
  then have "universal_newlines bs = bs" by (rule universal_newlines_id)
  with a dec have "read_text env p = Inr bs"
    by (simp add: read_text_def)
  with a show "process_file env p = ([ReadText p], Inr (bs, py ''TXT''))"
    by (simp add: process_file_txt)
next
  assume a: "(suffix_lower env p = py ''.pdf'' \<or> suffix_lower env p = py ''.docx'') \<and>
    snd (process_file env p) = Inr (t, d)"
  have "\<exists>s. t = strip s"
  proof (cases "suffix_lower env p = py ''.pdf''")
    case True
    with a show ?thesis
      by (cases "fitz_pages env p"; cases "ocr_pages env p")
         (auto simp add: process_file_pdf split: if_splits)
  next
    case False
    with a have "suffix_lower env p = py ''.docx''" by simp
    with a show ?thesis
      by (cases "docx_paragraphs env p") (auto simp add: process_file_docx)
  qed
  then obtain s where s: "t = strip s" by blast
  show "strip t = t" by (simp add: s strip_strip)
  show "\<not> isspace (hd t)" if "t \<noteq> []" using that strip_ends(1)[of s] by (simp add: s)
  show "\<not> isspace (last t)" if "t \<noteq> []" using that strip_ends(2)[of s] by (simp add: s)
qed

theorem txt_is_decoded_with_line_ends_translated_witness:
  "process_file demo_env (py ''notes.txt'') =
     ([ReadText (py ''notes.txt'')],
      Inr (py ''  The quick brown fox. It jumps. '' @ [10], py ''TXT'')) \<and>
   isspace (hd (py ''  The quick brown fox. It jumps. '' @ [10])) \<and>
   isspace (last (py ''  The quick brown fox. It jumps. '' @ [10])) \<and>
   utf8_decode [195, 169, 13, 32] = Inr [233, 13, 32] \<and>
   process_file demo_env (py ''mac.txt'') =
     ([ReadText (py ''mac.txt'')], Inr ([233, 10, 32], py ''TXT'')) \<and>
   process_file demo_env (py ''letter.docx'') =
     ([DocxOpen (py ''letter.docx'')],
      Inr (py ''Dear reader.'' @ [10] @ py ''Yours truly'', py ''DOCX'')) \<and>
   strip (py ''Dear reader.'' @ [10] @ py ''Yours truly'') =
     py ''Dear reader.'' @ [10] @ py ''Yours truly''"
  using
    txt_is_decoded_with_line_ends_translated[of demo_env "py ''notes.txt''"
      "py ''  The quick brown fox. It jumps. '' @ [10]"
      "py ''  The quick brown fox. It jumps. '' @ [10]" "[]" "[]"]
    txt_is_decoded_with_line_ends_translated[of demo_env "py ''mac.txt''"
      "[195, 169, 13, 32]" "[233, 13, 32]" "[]" "[]"]
    txt_is_decoded_with_line_ends_translated[of demo_env "py ''letter.docx''" "[]" "[]"
      "py ''Dear reader.'' @ [10] @ py ''Yours truly''" "py ''DOCX''"]
  by (simp add: process_file_def dispatch_def extract_text_from_docx_def
      demo_env_def py_def strip_def isspace_def cons_decoded_def continuation_def)

text \<open>
  The claim as written has the extracted text equal to the raw content of the file.
  A file of the five bytes \<open>abc\<close>, carriage return, line feed is valid UTF-8 and
  decodes to the same five code points; the extracted text has four, the carriage
  return is gone.
\<close>

theorem txt_with_crlf_is_not_verbatim_counterexample:
  "file_bytes demo_env (py ''windows.txt'') = Inr [97, 98, 99, 13, 10] \<and>
   utf8_decode [97, 98, 99, 13, 10] = Inr [97, 98, 99, 13, 10] \<and>
   process_file demo_env (py ''windows.txt'') =
     ([ReadText (py ''windows.txt'')], Inr ([97, 98, 99, 10], py ''TXT'')) \<and>
   [97, 98, 99, 10] \<noteq> [97, 98, 99, 13, 10::nat]"
  by (simp add: process_file_def dispatch_def read_text_def demo_env_def py_def
      cons_decoded_def)

section \<open>Failures of the libraries\<close>

text \<open>
  C8, as the code has it. Nothing catches or wraps an exception. When the library call
  of a branch of \<open>process_file\<close> raises, \<open>process_file\<close> raises the same exception
  after the calls made so far; when the summarizer or the keyword model raises,
  \<open>generate_metadata\<close> raises the same exception; and when either function raises
  inside the notebook's entry point, the entry point raises that exception too and
  prints nothing.
\<close>

theorem library_failures_propagate_unchanged:
  "(suffix_lower env p = py ''.pdf'' \<and> fitz_pages env p = Inl e \<longrightarrow>
      process_file env p = ([FitzOpen p], Inl e)) \<and>
   (suffix_lower env p = py ''.pdf'' \<and> snd (extract_text_from_pdf env p) = Inr [] \<and>
    ocr_pages env p = Inl e \<longrightarrow>
      process_file env p = ([FitzOpen p, OcrConvert p], Inl e)) \<and>
   (suffix_lower env p = py ''.docx'' \<and> docx_paragraphs env p = Inl e \<longrightarrow>
      process_file env p = ([DocxOpen p], Inl e)) \<and>
   (suffix_lower env p = py ''.txt'' \<and> read_text env p = Inl e \<longrightarrow>
      process_file env p = ([ReadText p], Inl e)) \<and>
   (summarizer env (if length text > 1024 then take 1024 text else text) = Inl e \<longrightarrow>
      snd (generate_metadata env text d) = Inl e) \<and>
   (\<not> isl (summarizer env (if length text > 1024 then take 1024 text else text)) \<and>
    extract_keywords env text = Inl e \<longrightarrow>
      snd (generate_metadata env text d) = Inl e) \<and>
   (path_exists env p \<and> snd (process_file env p) = Inl e \<longrightarrow>
      snd (run_sample env p) = Inl e \<and> (\<forall>x. Print x \<notin> set (fst (run_sample env p)))) \<and>
   (path_exists env p \<and> snd (process_file env p) = Inr (text, d) \<and> text \<noteq> [] \<and>
    snd (generate_metadata env text d) = Inl e \<longrightarrow>
      snd (run_sample env p) = Inl e \<and> (\<forall>x. Print x \<notin> set (fst (run_sample env p))))"
proof (intro conjI impI)
  assume "suffix_lower env p = py ''.pdf'' \<and> fitz_pages env p = Inl e"
  then show "process_file env p = ([FitzOpen p], Inl e)"
    by (simp add: process_file_pdf)
next
  assume "suffix_lower env p = py ''.pdf'' \<and> snd (extract_text_from_pdf env p) = Inr [] \<and>
    ocr_pages env p = Inl e"
  then show "process_file env p = ([FitzOpen p, OcrConvert p], Inl e)"
    by (cases "fitz_pages env p") (auto simp add: process_file_pdf extract_text_from_pdf_def)
next
  assume "suffix_lower env p = py ''.docx'' \<and> docx_paragraphs env p = Inl e"
  then show "process_file env p = ([DocxOpen p], Inl e)"
    by (simp add: process_file_docx)
next
  assume "suffix_lower env p = py ''.txt'' \<and> read_text env p = Inl e"
  then show "process_file env p = ([ReadText p], Inl e)"
    by (simp add: process_file_txt)
next
  assume "summarizer env (if length text > 1024 then take 1024 text else text) = Inl e"
  then show "snd (generate_metadata env text d) = Inl e"
    by (simp add: generate_metadata_result)
next
  assume "\<not> isl (summarizer env (if length text > 1024 then take 1024 text else text)) \<and>
    extract_keywords env text = Inl e"
  then show "snd (generate_metadata env text d) = Inl e"
    by (cases "summarizer env (if length text > 1024 then take 1024 text else text)")
       (auto simp add: generate_metadata_result)
next
  assume a: "path_exists env p \<and> snd (process_file env p) = Inl e"
  then show r: "snd (run_sample env p) = Inl e"
    by (simp add: run_sample_raises)
  show "\<forall>x. Print x \<notin> set (fst (run_sample env p))"
    using run_sample_raises_no_print[OF r] by blast
next
  assume a: "path_exists env p \<and> snd (process_file env p) = Inr (text, d) \<and> text \<noteq> [] \<and>
    snd (generate_metadata env text d) = Inl e"
  then show r: "snd (run_sample env p) = Inl e"
    by (simp add: run_sample_raises)
  show "\<forall>x. Print x \<notin> set (fst (run_sample env p))"
    using run_sample_raises_no_print[OF r] by blast
qed

theorem library_failures_propagate_unchanged_witness:
  "read_text demo_env (py ''binary.txt'') = Inl UnicodeDecodeError \<and>
   process_file demo_env (py ''binary.txt'') =
     ([ReadText (py ''binary.txt'')], Inl UnicodeDecodeError) \<and>
   path_exists demo_env (py ''binary.txt'') \<and>
   run_sample demo_env (py ''binary.txt'') =
     ([PathExists (py ''binary.txt''), ReadText (py ''binary.txt'')],
      Inl UnicodeDecodeError)"
  using library_failures_propagate_unchanged[of demo_env "py ''binary.txt''"
    "UnicodeDecodeError" "[]" "[]"]
  by (simp add: run_sample_def read_text_def demo_env_def py_def)

text \<open>
  The claim as written has every such failure reported as a value and never leaving
  the entry point. A PDF that PyMuPDF cannot open makes the entry point end with the
  library's own exception, uncaught.
\<close>

theorem library_failure_escapes_entry_point_counterexample:
  "run_sample demo_env (py ''broken.pdf'') =
     ([PathExists (py ''broken.pdf''), FitzOpen (py ''broken.pdf'')],
      Inl (LibraryError ''cannot open file''))"
  by (simp add: run_sample_def process_file_def dispatch_def extract_text_from_pdf_def
      demo_env_def py_def)

section \<open>A missing file\<close>

text \<open>
  C9. When the path does not exist, the notebook's entry point checks the path, prints
  the warning and ends normally: it makes no extraction or model call, prints no
  record and raises nothing.
\<close>

theorem missing_file_only_warns:
  assumes "\<not> path_exists env p"
  shows "run_sample env p = ([PathExists p, Print (Text msg_not_found)], Inr ()) \<and>
         msg_not_found \<noteq> []"
  using assms by (simp add: run_sample_def msg_not_found_def)

theorem missing_file_only_warns_witness:
  "\<not> path_exists demo_env (py ''missing.pdf'') \<and>
   run_sample demo_env (py ''missing.pdf'') =
     ([PathExists (py ''missing.pdf''), Print (Text msg_not_found)], Inr ())"
proof -
  have h: "\<not> path_exists demo_env (py ''missing.pdf'')"
    by (simp add: demo_env_def)
  from h missing_file_only_warns[OF h] show ?thesis by simp
qed

section \<open>The document type argument\<close>

text \<open>
  C10. For every text and every two document types, the two runs of
  \<open>generate_metadata\<close> make the same calls, and each result is the other with the
  document type replaced: two records agree on title, summary, keywords and word
  count, and the document type of each is the argument it was given, whatever string
  that is.
\<close>

theorem doc_type_only_sets_document_type:
  "fst (generate_metadata env text d1) = fst (generate_metadata env text d2) \<and>
   snd (generate_metadata env text d1) =
     map_sum id (\<lambda>m. m\<lparr>document_type := d1\<rparr>) (snd (generate_metadata env text d2)) \<and>
   (\<forall>m1 m2. snd (generate_metadata env text d1) = Inr m1 \<and>
            snd (generate_metadata env text d2) = Inr m2 \<longrightarrow>
      title m1 = title m2 \<and> summary m1 = summary m2 \<and> keywords m1 = keywords m2 \<and>
      word_count m1 = word_count m2 \<and> document_type m1 = d1 \<and> document_type m2 = d2)"
proof -
  have calls: "fst (generate_metadata env text d1) = fst (generate_metadata env text d2)"
    by (simp add: generate_metadata_events)
  have swap: "snd (generate_metadata env text d1) =
      map_sum id (\<lambda>m. m\<lparr>document_type := d1\<rparr>) (snd (generate_metadata env text d2))"
    by (simp add: generate_metadata_result split: sum.splits)
  have agree: "\<forall>m1 m2. snd (generate_metadata env text d1) = Inr m1 \<and>
            snd (generate_metadata env text d2) = Inr m2 \<longrightarrow>
      title m1 = title m2 \<and> summary m1 = summary m2 \<and> keywords m1 = keywords m2 \<and>
      word_count m1 = word_count m2 \<and> document_type m1 = d1 \<and> document_type m2 = d2"
    by (auto simp add: generate_metadata_result split: sum.splits)
  from calls swap agree show ?thesis by (intro conjI)
qed

theorem doc_type_only_sets_document_type_witness:
  "snd (generate_metadata demo_env (py ''Cats purr. They nap.'') (py ''PDF'')) =
     Inr \<lparr>title = py ''Cats purr'', summary = py ''Cats purr. T'',
          keywords = [py ''Cats'', py ''pur''], document_type = py ''PDF'', word_count = 4\<rparr> \<and>
   snd (generate_metadata demo_env (py ''Cats purr. They nap.'') (py ''no such type'')) =
     Inr \<lparr>title = py ''Cats purr'', summary = py ''Cats purr. T'',
          keywords = [py ''Cats'', py ''pur''], document_type = py ''no such type'', word_count = 4\<rparr>"
  using doc_type_only_sets_document_type[of demo_env "py ''Cats purr. They nap.''" "py ''PDF''" "py ''no such type''"]
  by (simp add: generate_metadata_result demo_env_def py_def split_ws_def isspace_def)

end
